theory Spec2Isabelle
  imports Main "HOL-Library.Char_ord" "HOL-Library.List_Lexorder" "HOL-Library.Option_ord"
begin

section \<open>The frame: rows, lazy frames, the analyzer\<close>

text \<open>
  \<^verbatim>\<open>TrafficAnalyzer\<close> keeps one attribute, \<^verbatim>\<open>lf\<close>, which is \<^verbatim>\<open>None\<close> until a source
  has been added and a Polars \<^verbatim>\<open>LazyFrame\<close> afterwards. The frame has the two columns of
  \<^verbatim>\<open>schema_overrides\<close>: \<^verbatim>\<open>dt\<close> (\<^verbatim>\<open>pl.Datetime\<close>, the number of microseconds since
  1970-01-01T00:00:00) and \<^verbatim>\<open>count\<close> (\<^verbatim>\<open>pl.Int64\<close>). Both columns are nullable, and
  \<^verbatim>\<open>ignore_errors=True\<close> is what fills them with nulls: a field that the reader cannot
  convert to the column's type is stored as null, the line itself stays a row.

  Both columns hold 64-bit signed integers. Their values are written as integers here,
  and every sum and difference that the engine computes on them is reduced to the 64-bit
  range by \<open>wrap64\<close>, as the engine's arithmetic wraps around.
\<close>

definition wrap64 :: "int \<Rightarrow> int" where
  "wrap64 x = (x + 2 ^ 63) mod 2 ^ 64 - 2 ^ 63"

definition in_int64 :: "int \<Rightarrow> bool" where
  "in_int64 x \<longleftrightarrow> - (2 ^ 63) \<le> x \<and> x < 2 ^ 63"

record row =
  dt :: "int option"
  count :: "int option"

text \<open>
  A lazy frame is a query plan. What matters of it here is what \<^verbatim>\<open>collect\<close> yields: rows,
  or an exception (a source that cannot be read when the plan runs, or an object put into
  \<^verbatim>\<open>lf\<close> whose methods raise, as the repository's exception tests do).
\<close>

datatype lazyframe = Frame "row list" | Failing

datatype error = ScanError | CollectError | SliceError | DatetimeRange | NoneAttribute

record analyzer =
  lf :: "lazyframe option"

definition init :: analyzer where
  "init = \<lparr>lf = None\<rparr>"

fun collect :: "lazyframe \<Rightarrow> error + row list" where
  "collect (Frame rs) = Inr rs"
| "collect Failing = Inl CollectError"

section \<open>What is left to the engine\<close>

text \<open>
  The source calls \<^verbatim>\<open>sort\<close> three times (by \<^verbatim>\<open>dt\<close>, by \<^verbatim>\<open>count\<close> descending, by
  \<^verbatim>\<open>sum_count\<close>) and never passes \<^verbatim>\<open>maintain_order=True\<close>: in which order rows with equal
  keys come out is the engine's choice. The choice is modelled as a function from the key
  column to an order of the row positions; another run of the program may be another
  engine. \<^verbatim>\<open>nulls_last\<close> is left at \<^verbatim>\<open>False\<close>: nulls come first, which is the order of
  \<^typ>\<open>int option\<close> with \<open>None\<close> least.

  The largest length that \<^verbatim>\<open>head\<close> accepts is the engine's as well: its index width,
  which is 32 bits or more.

  All that is assumed of an engine is \<open>admissible\<close>: a sort returns every row position
  once, and the keys in that order are sorted.
\<close>

record engine =
  arg_sort :: "bool \<Rightarrow> int option list \<Rightarrow> nat list"
  max_head :: int

definition okey :: "bool \<Rightarrow> int option \<Rightarrow> int option" where
  \<comment> \<open>the key as the sort compares it: reversed for a descending sort, nulls first anyway\<close>
  "okey desc k = (if desc then map_option uminus k else k)"

definition sort_by :: "engine \<Rightarrow> bool \<Rightarrow> ('a \<Rightarrow> int option) \<Rightarrow> 'a list \<Rightarrow> 'a list" where
  "sort_by E desc key xs = map (\<lambda>i. xs ! i) (arg_sort E desc (map key xs))"

definition admissible :: "engine \<Rightarrow> bool" where
  "admissible E \<longleftrightarrow>
     (\<forall>desc keys.
        distinct (arg_sort E desc keys)
        \<and> set (arg_sort E desc keys) = {..<length keys}
        \<and> sorted (map (\<lambda>i. okey desc (keys ! i)) (arg_sort E desc keys)))
     \<and> 2 ^ 32 - 1 \<le> max_head E"

definition reference_engine :: engine where
  \<comment> \<open>one admissible engine, to run the model with: equal keys stay in the order of the
      input in an ascending sort and are reversed in a descending one; 32-bit index\<close>
  "reference_engine =
     \<lparr>arg_sort = (\<lambda>desc keys.
         sort_key (\<lambda>i. okey desc (keys ! i))
           (if desc then rev [0..<length keys] else [0..<length keys])),
      max_head = 2 ^ 32 - 1\<rparr>"

section \<open>Timestamps as text\<close>

text \<open>
  \<^verbatim>\<open>strftime\<close> and \<^verbatim>\<open>isoformat\<close> print a timestamp in the proleptic Gregorian calendar.
  The day number is turned into year, month and day by the usual era computation
  (400-year cycles of 146097 days counted from 0000-03-01).
\<close>

definition civil_from_days :: "int \<Rightarrow> int \<times> int \<times> int" where
  "civil_from_days days =
     (let z = days + 719468;
          era = z div 146097;
          doe = z - era * 146097;
          yoe = (doe - doe div 1460 + doe div 36524 - doe div 146096) div 365;
          doy = doe - (365 * yoe + yoe div 4 - yoe div 100);
          mp = (5 * doy + 2) div 153;
          d = doy - (153 * mp + 2) div 5 + 1;
          m = (if mp < 10 then mp + 3 else mp - 9);
          y = yoe + era * 400 + (if m \<le> 2 then 1 else 0)
      in (y, m, d))"

definition digit_char :: "int \<Rightarrow> char" where
  "digit_char d = ''0123456789'' ! nat (d mod 10)"

function digits :: "int \<Rightarrow> string" where
  "digits n = (if n < 10 then [digit_char n] else digits (n div 10) @ [digit_char (n mod 10)])"
  by pat_completeness auto
termination
  by (relation "measure nat") auto

definition pad :: "nat \<Rightarrow> int \<Rightarrow> string" where
  "pad w n =
     (let ds = digits \<bar>n\<bar>
      in (if n < 0 then ''-'' else '''') @ replicate (w - length ds) (CHR ''0'') @ ds)"

definition us_per_second :: int where
  "us_per_second = 1000000"

definition us_per_day :: int where
  "us_per_day = 86400 * us_per_second"

definition strftime_year :: "int \<Rightarrow> string" where
  \<comment> \<open>\<^verbatim>\<open>%Y\<close>: four digits; a year before 0 or after 9999 is printed with its sign\<close>
  "strftime_year y = (if 9999 < y then ''+'' else '''') @ pad 4 y"

definition strftime_date :: "int \<Rightarrow> string" where
  \<comment> \<open>\<^verbatim>\<open>dt.strftime("%Y-%m-%d")\<close>\<close>
  "strftime_date t =
     (case civil_from_days (t div us_per_day) of
        (y, m, d) \<Rightarrow> strftime_year y @ ''-'' @ pad 2 m @ ''-'' @ pad 2 d)"

definition strftime_datetime :: "int \<Rightarrow> string" where
  \<comment> \<open>\<^verbatim>\<open>dt.strftime("%Y-%m-%dT%H:%M:%S")\<close>\<close>
  "strftime_datetime t =
     (let s = (t mod us_per_day) div us_per_second
      in strftime_date t @ ''T'' @ pad 2 (s div 3600) @ '':'' @ pad 2 (s mod 3600 div 60)
           @ '':'' @ pad 2 (s mod 60))"

definition isoformat :: "int \<Rightarrow> string" where
  \<comment> \<open>Python's \<^verbatim>\<open>datetime.isoformat()\<close>: the fraction is printed only when it is not zero.\<close>
  "isoformat t =
     (let f = t mod us_per_second
      in strftime_datetime t @ (if f = 0 then '''' else ''.'' @ pad 6 f))"

text \<open>
  \<^verbatim>\<open>to_dicts()\<close> hands a timestamp to Python as a \<^verbatim>\<open>datetime\<close>, which exists from
  0001-01-01T00:00:00 to 9999-12-31T23:59:59.999999 only; outside it raises.
\<close>

definition in_datetime_range :: "int \<Rightarrow> bool" where
  "in_datetime_range t \<longleftrightarrow> - 62135596800000000 \<le> t \<and> t \<le> 253402300799999999"

definition to_datetime :: "int option \<Rightarrow> error + int option" where
  \<comment> \<open>a null becomes \<^verbatim>\<open>None\<close>\<close>
  "to_datetime v =
     (case v of
        None \<Rightarrow> Inr None
      | Some t \<Rightarrow> if in_datetime_range t then Inr (Some t) else Inl DatetimeRange)"

section \<open>Reading sources\<close>

text \<open>
  The reader splits a line at the separator \<^verbatim>\<open>" "\<close> and converts the first field to a
  timestamp and the second to a count. A field is given here by what the reader makes of
  it: its value, or \<open>None\<close> when the text cannot be converted. The first line of a file
  fixes the number of columns. Of a file modelled here it has two fields; a later line may
  have one field, two fields, or more.
\<close>

datatype csv_line =
    Short "int option"               \<comment> \<open>one field only: the count is missing\<close>
  | Line "int option" "int option"   \<comment> \<open>two fields\<close>
  | Long                             \<comment> \<open>more than two fields\<close>

datatype source =
    Rejected
      \<comment> \<open>\<^verbatim>\<open>pl.scan_csv\<close> raises at the call: a value that cannot be a path, such as a number\<close>
  | Unreadable
      \<comment> \<open>the scan is accepted and reading fails when a query collects: \<^verbatim>\<open>None\<close>, a path
          to no file, an I/O error, a file whose first line has no count\<close>
  | Csv "int option" "int option" "csv_line list"
      \<comment> \<open>a text file: the two fields of its first line, and its further lines\<close>

text \<open>
  \<^verbatim>\<open>ignore_errors=True\<close> makes a null of a field that is missing or cannot be converted
  and keeps the row. It does not cover a line with more fields than columns: the reader
  then fails for the file as a whole.
\<close>

fun read_lines :: "csv_line list \<Rightarrow> row list option" where
  "read_lines [] = Some []"
| "read_lines (Short a # ls) = map_option ((#) \<lparr>dt = a, count = None\<rparr>) (read_lines ls)"
| "read_lines (Line a b # ls) = map_option ((#) \<lparr>dt = a, count = b\<rparr>) (read_lines ls)"
| "read_lines (Long # ls) = None"

fun source_rows :: "source \<Rightarrow> row list option" where
  "source_rows (Csv a b ls) = read_lines (Line a b # ls)"
| "source_rows _ = None"

text \<open>
  \<^verbatim>\<open>add_paths\<close> adds the paths "lazily (no immediate read)": \<^verbatim>\<open>scan_csv\<close> returns a plan,
  and the file is read when a query collects.
\<close>

fun scan_csv :: "source \<Rightarrow> error + lazyframe" where
  "scan_csv Rejected = Inl ScanError"
| "scan_csv p = Inr (case source_rows p of None \<Rightarrow> Failing | Some rs \<Rightarrow> Frame rs)"

fun pl_concat :: "lazyframe \<Rightarrow> lazyframe \<Rightarrow> lazyframe" where
  \<comment> \<open>\<^verbatim>\<open>pl.concat([self.lf, scan], how="vertical_relaxed")\<close>\<close>
  "pl_concat (Frame a) (Frame b) = Frame (a @ b)"
| "pl_concat _ _ = Failing"

text \<open>
  \<^verbatim>\<open>add_paths\<close>: the \<^verbatim>\<open>try\<close> encloses the whole \<^verbatim>\<open>for\<close> loop. An exception of
  \<^verbatim>\<open>scan_csv\<close> therefore leaves the loop; the handler logs it and the method returns with
  whatever the earlier iterations have assigned to \<^verbatim>\<open>self.lf\<close>.
\<close>

fun add_paths :: "analyzer \<Rightarrow> source list \<Rightarrow> analyzer" where
  "add_paths s [] = s"
| "add_paths s (p # ps) =
     (case scan_csv p of
        Inl e \<Rightarrow> s
      | Inr scan \<Rightarrow>
          add_paths
            (s\<lparr>lf := Some (case lf s of None \<Rightarrow> scan | Some l \<Rightarrow> pl_concat l scan)\<rparr>) ps)"

section \<open>The four queries\<close>

text \<open>
  Every query has the same shape: a \<^verbatim>\<open>try\<close> block (here the function ending in \<open>_body\<close>,
  whose result is \<open>Inl\<close> when the block raises) and the handler
  \<^verbatim>\<open>except Exception\<close> that logs and returns the default.
\<close>

definition col_sum :: "int option list \<Rightarrow> int" where
  \<comment> \<open>\<^verbatim>\<open>pl.col(c).sum()\<close> on an Int64 column: nulls are skipped, the sum of no value is 0,
      the sum wraps around\<close>
  "col_sum col = wrap64 (sum_list (map (\<lambda>v. case v of None \<Rightarrow> 0 | Some c \<Rightarrow> c) col))"

subsection \<open>total\<close>

text \<open>The query \<^verbatim>\<open>total\<close> is \<open>total_q\<close> here, \<open>total\<close> being a constant of HOL.\<close>

definition total_body :: "analyzer \<Rightarrow> error + int" where
  "total_body s =
     (case lf s of
        None \<Rightarrow> Inr 0
      | Some l \<Rightarrow>
          (case collect l of
             Inl e \<Rightarrow> Inl e
           | Inr rs \<Rightarrow> Inr (col_sum (map row.count rs))))"

definition total_q :: "analyzer \<Rightarrow> int" where
  "total_q s = (case total_body s of Inl e \<Rightarrow> 0 | Inr v \<Rightarrow> v)"

subsection \<open>per\_day\<close>

record day_total =
  date :: "string option"
  total_cars :: int

definition date_of :: "row \<Rightarrow> string option" where
  \<comment> \<open>\<^verbatim>\<open>pl.col("dt").dt.strftime("%Y-%m-%d").alias("date")\<close>\<close>
  "date_of r = map_option strftime_date (dt r)"

definition group_by_date :: "row list \<Rightarrow> day_total list" where
  \<comment> \<open>\<^verbatim>\<open>.group_by("date").agg(pl.col("count").sum().alias("total_cars"))\<close>: one row per
      distinct key, null being a key like any other\<close>
  "group_by_date rs =
     map (\<lambda>d. \<lparr>date = d, total_cars = col_sum (map row.count (filter (\<lambda>r. date_of r = d) rs))\<rparr>)
       (remdups (map date_of rs))"

text \<open>
  The keys of the groups are distinct, so \<^verbatim>\<open>.sort("date")\<close> has one possible result,
  which \<^const>\<open>sort_key\<close> computes; the null date, if there is one, comes first.
\<close>

definition per_day_body :: "analyzer \<Rightarrow> error + day_total list" where
  "per_day_body s =
     (case lf s of
        None \<Rightarrow> Inr []
      | Some l \<Rightarrow>
          (case collect l of
             Inl e \<Rightarrow> Inl e
           | Inr rs \<Rightarrow> Inr (sort_key date (group_by_date rs))))"

definition per_day :: "analyzer \<Rightarrow> day_total list" where
  "per_day s = (case per_day_body s of Inl e \<Rightarrow> [] | Inr v \<Rightarrow> v)"

subsection \<open>top\_k\<close>

record ranked_slot =
  datetime :: "string option"
  count :: "int option"

definition sort_count_desc :: "engine \<Rightarrow> row list \<Rightarrow> row list" where
  \<comment> \<open>\<^verbatim>\<open>.sort(by=["count"], descending=[True])\<close>: the count is the only key\<close>
  "sort_count_desc E rs = sort_by E True row.count rs"

definition to_slot :: "row \<Rightarrow> ranked_slot" where
  \<comment> \<open>\<^verbatim>\<open>.with_columns(... strftime("%Y-%m-%dT%H:%M:%S").alias("datetime"))\<close> and
      \<^verbatim>\<open>.select(["datetime", "count"])\<close>\<close>
  "to_slot r = \<lparr>datetime = map_option strftime_datetime (dt r), count = row.count r\<rparr>"

definition top_k_body :: "engine \<Rightarrow> int \<Rightarrow> analyzer \<Rightarrow> error + ranked_slot list" where
  \<comment> \<open>\<^verbatim>\<open>head\<close> raises for a negative length and for one beyond the engine's index width\<close>
  "top_k_body E k s =
     (case lf s of
        None \<Rightarrow> Inr []
      | Some l \<Rightarrow>
          if k < 0 \<or> max_head E < k then Inl SliceError
          else (case collect l of
                  Inl e \<Rightarrow> Inl e
                | Inr rs \<Rightarrow> Inr (take (nat k) (map to_slot (sort_count_desc E rs)))))"

definition top_k :: "engine \<Rightarrow> int \<Rightarrow> analyzer \<Rightarrow> ranked_slot list" where
  "top_k E k s = (case top_k_body E k s of Inl e \<Rightarrow> [] | Inr v \<Rightarrow> v)"

subsection \<open>min\_window\_sum\<close>

record shifted = row +
  dt1 :: "int option"
  dt2 :: "int option"
  count1 :: "int option"
  count2 :: "int option"

record summed = shifted +
  sum_count :: "int option"

record window =
  datetime_range :: "string list"
  total_cars :: "int option"

definition shift_up :: "nat \<Rightarrow> 'a option list \<Rightarrow> 'a option list" where
  \<comment> \<open>\<^verbatim>\<open>pl.col(c).shift(-n)\<close>: every value moves up by \<open>n\<close> rows, the last \<open>n\<close> rows get null\<close>
  "shift_up n col = drop n col @ replicate (min n (length col)) None"

definition with_shifted :: "row list \<Rightarrow> shifted list" where
  "with_shifted rs =
     (let dts = map dt rs; counts = map row.count rs
      in map (\<lambda>i. \<lparr>dt = dts ! i, count = counts ! i,
                    dt1 = shift_up 1 dts ! i, dt2 = shift_up 2 dts ! i,
                    count1 = shift_up 1 counts ! i, count2 = shift_up 2 counts ! i\<rparr>)
           [0..<length rs])"

definition half_hour :: int where
  \<comment> \<open>\<^verbatim>\<open>timedelta(minutes=30)\<close> in microseconds\<close>
  "half_hour = 30 * 60 * us_per_second"

text \<open>
  Arithmetic and comparisons of the engine on nullable values: a null operand gives null,
  sums and differences wrap around, and the conjunction is three-valued.
\<close>

definition sub_null :: "int option \<Rightarrow> int option \<Rightarrow> int option" where
  "sub_null a b = (case (a, b) of (Some x, Some y) \<Rightarrow> Some (wrap64 (x - y)) | _ \<Rightarrow> None)"

definition add_null :: "int option \<Rightarrow> int option \<Rightarrow> int option" where
  "add_null a b = (case (a, b) of (Some x, Some y) \<Rightarrow> Some (wrap64 (x + y)) | _ \<Rightarrow> None)"

definition eq_null :: "int option \<Rightarrow> int \<Rightarrow> bool option" where
  "eq_null a c = map_option (\<lambda>x. x = c) a"

definition and_null :: "bool option \<Rightarrow> bool option \<Rightarrow> bool option" where
  "and_null p q =
     (if p = Some False \<or> q = Some False then Some False
      else if p = Some True \<and> q = Some True then Some True
      else None)"

definition contiguous :: "shifted \<Rightarrow> bool" where
  \<comment> \<open>the predicate of \<^verbatim>\<open>.filter(...)\<close>; a row is kept when it evaluates to true\<close>
  "contiguous w =
     (and_null (eq_null (sub_null (dt1 w) (dt w)) half_hour)
               (eq_null (sub_null (dt2 w) (dt1 w)) half_hour) = Some True)"

definition with_sum :: "shifted \<Rightarrow> summed" where
  \<comment> \<open>\<^verbatim>\<open>(pl.col("count") + pl.col("count1") + pl.col("count2")).alias("sum_count")\<close>\<close>
  "with_sum w =
     \<lparr>dt = dt w, count = row.count w, dt1 = dt1 w, dt2 = dt2 w,
      count1 = count1 w, count2 = count2 w,
      sum_count = add_null (add_null (row.count w) (count1 w)) (count2 w)\<rparr>"

definition windows_of :: "row list \<Rightarrow> summed list" where
  \<comment> \<open>from the rows sorted by \<^verbatim>\<open>dt\<close> to \<^verbatim>\<open>.select([...])\<close>, which only drops columns\<close>
  "windows_of srt = map with_sum (filter contiguous (with_shifted srt))"

definition candidates :: "engine \<Rightarrow> row list \<Rightarrow> summed list" where
  "candidates E rs = windows_of (sort_by E False dt rs)"

definition least_rows :: "engine \<Rightarrow> row list \<Rightarrow> summed list" where
  \<comment> \<open>\<^verbatim>\<open>.sort("sum_count").limit(1)\<close>: what \<^verbatim>\<open>collect\<close> returns\<close>
  "least_rows E rs = take 1 (sort_by E False sum_count (candidates E rs))"

definition attr_isoformat :: "int option \<Rightarrow> error + string" where
  \<comment> \<open>\<^verbatim>\<open>datetime.isoformat()\<close> on a value of the row's dict, \<^verbatim>\<open>None\<close> for a null\<close>
  "attr_isoformat v = (case v of None \<Rightarrow> Inl NoneAttribute | Some t \<Rightarrow> Inr (isoformat t))"

definition format_window :: "summed \<Rightarrow> error + window" where
  \<comment> \<open>\<^verbatim>\<open>to_dicts()\<close> converts the three timestamps of the row first; then \<^verbatim>\<open>isoformat\<close> is
      called on the values of \<^verbatim>\<open>dt\<close>, \<^verbatim>\<open>dt1\<close>, \<^verbatim>\<open>dt2\<close> in this order\<close>
  "format_window w =
     (case (to_datetime (dt w), to_datetime (dt1 w), to_datetime (dt2 w)) of
        (Inr a, Inr b, Inr c) \<Rightarrow>
          (case (attr_isoformat a, attr_isoformat b, attr_isoformat c) of
             (Inr x, Inr y, Inr z) \<Rightarrow>
               Inr \<lparr>datetime_range = [x, y, z], total_cars = sum_count w\<rparr>
           | _ \<Rightarrow> Inl NoneAttribute)
      | _ \<Rightarrow> Inl DatetimeRange)"

definition min_window_sum_body :: "engine \<Rightarrow> analyzer \<Rightarrow> error + window option" where
  "min_window_sum_body E s =
     (case lf s of
        None \<Rightarrow> Inr None
      | Some l \<Rightarrow>
          (case collect l of
             Inl e \<Rightarrow> Inl e
           | Inr rs \<Rightarrow>
               (case least_rows E rs of
                  [] \<Rightarrow> Inr None
                | w # _ \<Rightarrow>
                    (case format_window w of Inl e \<Rightarrow> Inl e | Inr v \<Rightarrow> Inr (Some v)))))"

definition min_window_sum :: "engine \<Rightarrow> analyzer \<Rightarrow> window option" where
  "min_window_sum E s = (case min_window_sum_body E s of Inl e \<Rightarrow> None | Inr v \<Rightarrow> v)"

section \<open>Datasets to run the model on\<close>

text \<open>
  \<open>at\<close> gives the timestamp of a civil date and time, to write the examples with;
  \<open>slot\<close> is a row with both fields. Unless said otherwise the examples have no two equal
  keys in any sort, so that every admissible engine treats them alike.
\<close>

definition days_from_civil :: "int \<Rightarrow> int \<Rightarrow> int \<Rightarrow> int" where
  "days_from_civil y m d =
     (let y' = (if m \<le> 2 then y - 1 else y);
          era = y' div 400;
          yoe = y' - era * 400;
          doy = (153 * (if m > 2 then m - 3 else m + 9) + 2) div 5 + d - 1;
          doe = yoe * 365 + yoe div 4 - yoe div 100 + doy
      in era * 146097 + doe - 719468)"

definition at :: "int \<Rightarrow> int \<Rightarrow> int \<Rightarrow> int \<Rightarrow> int \<Rightarrow> int" where
  "at y m d hh mm = (days_from_civil y m d * 86400 + hh * 3600 + mm * 60) * us_per_second"

definition slot :: "int \<Rightarrow> int \<Rightarrow> row" where
  "slot t c = \<lparr>dt = Some t, count = Some c\<rparr>"

definition as_line :: "row \<Rightarrow> csv_line" where
  "as_line r = Line (dt r) (row.count r)"

subsection \<open>The sample of the repository's tests\<close>

definition SAMPLE_REST :: "row list" where
  "SAMPLE_REST =
    [slot (at 2021 12 1 5 30) 12,
     slot (at 2021 12 1 6 0) 14, slot (at 2021 12 1 6 30) 15,
     slot (at 2021 12 1 7 0) 25, slot (at 2021 12 1 7 30) 46,
     slot (at 2021 12 1 8 0) 42, slot (at 2021 12 1 15 0) 9,
     slot (at 2021 12 1 15 30) 11, slot (at 2021 12 1 23 30) 0,
     slot (at 2021 12 5 9 30) 18, slot (at 2021 12 5 10 30) 15,
     slot (at 2021 12 5 11 30) 7, slot (at 2021 12 5 12 30) 6,
     slot (at 2021 12 5 13 30) 9, slot (at 2021 12 5 14 30) 11,
     slot (at 2021 12 5 15 30) 15, slot (at 2021 12 8 18 0) 33,
     slot (at 2021 12 8 19 0) 28, slot (at 2021 12 8 20 0) 25,
     slot (at 2021 12 8 21 0) 21, slot (at 2021 12 8 22 0) 16,
     slot (at 2021 12 8 23 0) 11, slot (at 2021 12 9 0 0) 4]"

definition SAMPLE :: "row list" where
  "SAMPLE = slot (at 2021 12 1 5 0) 5 # SAMPLE_REST"

definition sample_file :: source where
  "sample_file = Csv (Some (at 2021 12 1 5 0)) (Some 5) (map as_line SAMPLE_REST)"

definition sample_analyzer :: analyzer where
  "sample_analyzer = add_paths init [sample_file]"

subsection \<open>Small datasets\<close>

definition early_first :: "row list" where
  \<comment> \<open>two half-hours with the same count, the earlier one first in the file\<close>
  "early_first = [slot (at 2021 12 1 5 0) 5, slot (at 2021 12 1 6 0) 5]"

definition late_first :: "row list" where
  \<comment> \<open>the same two rows, the later one first in the file\<close>
  "late_first = [slot (at 2021 12 1 6 0) 5, slot (at 2021 12 1 5 0) 5]"


definition two_days :: "row list" where
  "two_days =
     [slot (at 2021 12 5 9 30) 18, slot (at 2021 12 1 5 0) 5,
      slot (at 2021 12 5 10 30) 15, slot (at 2021 12 1 5 30) 12]"

definition good_file :: source where
  \<comment> \<open>the single line \<^verbatim>\<open>2021-12-01T05:00:00 7\<close>\<close>
  "good_file = Csv (Some (at 2021 12 1 5 0)) (Some 7) []"


definition long_line_file :: source where
  \<comment> \<open>the good line, then a line of three fields\<close>
  "long_line_file = Csv (Some (at 2021 12 1 5 0)) (Some 7) [Long]"




definition year_0 :: "row list" where
  \<comment> \<open>one window, in the first hours of the year 0000, which Python's \<^verbatim>\<open>datetime\<close> cannot
      hold\<close>
  "year_0 = [slot (at 0 1 1 0 0) 1, slot (at 0 1 1 0 30) 1, slot (at 0 1 1 1 0) 1]"

definition heavy_day :: "row list" where
  \<comment> \<open>one day, whose counts add up to \<open>2 ^ 63\<close>\<close>
  "heavy_day = [slot (at 2021 12 1 5 0) (2 ^ 63 - 1), slot (at 2021 12 1 5 30) 1]"

definition two_heavy_days :: "row list" where
  \<comment> \<open>two days, whose counts add up to \<open>2 ^ 63\<close>\<close>
  "two_heavy_days = [slot (at 2021 12 1 5 0) (2 ^ 63 - 1), slot (at 2021 12 2 5 0) 1]"

definition undated :: "row list" where
  \<comment> \<open>a row whose timestamp could not be converted, and a row of 2021-12-01\<close>
  "undated = [\<lparr>dt = None, count = Some 5\<rparr>, slot (at 2021 12 1 5 0) 7]"

section \<open>Notions used to state the properties\<close>

definition cars :: "row \<Rightarrow> int" where
  \<comment> \<open>the count of a row; a row without a count adds nothing to a sum\<close>
  "cars r = (case row.count r of None \<Rightarrow> 0 | Some c \<Rightarrow> c)"








definition ranked_before :: "ranked_slot \<Rightarrow> ranked_slot \<Rightarrow> bool" where
  \<comment> \<open>the order of the docstring of \<^verbatim>\<open>top_k\<close>: count descending, then datetime ascending\<close>
  "ranked_before a b \<longleftrightarrow>
     ranked_slot.count a > ranked_slot.count b
     \<or> (ranked_slot.count a = ranked_slot.count b \<and> datetime a \<le> datetime b)"

definition datable_row :: "summed \<Rightarrow> bool" where
  \<comment> \<open>the three timestamps of a window are ones that Python's \<^verbatim>\<open>datetime\<close> can hold\<close>
  "datable_row w \<longleftrightarrow>
     list_all (\<lambda>v. case v of None \<Rightarrow> True | Some t \<Rightarrow> in_datetime_range t) [dt w, dt1 w, dt2 w]"

definition readable :: "source \<Rightarrow> bool" where
  \<comment> \<open>a file that the reader accepts as a whole\<close>
  "readable p \<longleftrightarrow> source_rows p \<noteq> None"

definition rows_in :: "source \<Rightarrow> row list" where
  "rows_in p = (case source_rows p of None \<Rightarrow> [] | Some rs \<Rightarrow> rs)"


section \<open>Basic facts\<close>

subsection \<open>Wrap-around\<close>

lemma wrap64_id: "in_int64 x \<Longrightarrow> wrap64 x = x"
  by (simp add: wrap64_def in_int64_def)

lemma wrap64_0: "wrap64 0 = 0"
  by (simp add: wrap64_def)

lemma wrap64_add_left: "wrap64 (wrap64 a + b) = wrap64 (a + b)"
proof -
  have "(wrap64 a + b + 2 ^ 63) mod 2 ^ 64 = ((a + 2 ^ 63) mod 2 ^ 64 + b) mod (2 ^ 64 :: int)"
    by (simp add: wrap64_def)
  also have "\<dots> = (a + 2 ^ 63 + b) mod 2 ^ 64"
    by (rule mod_add_left_eq)
  also have "a + 2 ^ 63 + b = a + b + (2 ^ 63 :: int)"
    by simp
  finally show ?thesis by (simp add: wrap64_def)
qed

lemma wrap64_add_right: "wrap64 (a + wrap64 b) = wrap64 (a + b)"
  using wrap64_add_left[of b a] by (simp add: add.commute)

lemma wrap64_idem: "wrap64 (wrap64 a) = wrap64 a"
  using wrap64_add_left[of a 0] by simp

lemma wrap64_sum_list: "wrap64 (\<Sum>x\<leftarrow>xs. wrap64 (f x)) = wrap64 (\<Sum>x\<leftarrow>xs. f x)"
proof (induction xs)
  case Nil
  then show ?case by simp
next
  case (Cons x xs)
  have "wrap64 (wrap64 (f x) + (\<Sum>x\<leftarrow>xs. wrap64 (f x)))
      = wrap64 (f x + (\<Sum>x\<leftarrow>xs. wrap64 (f x)))"
    by (rule wrap64_add_left)
  also have "\<dots> = wrap64 (f x + wrap64 (\<Sum>x\<leftarrow>xs. wrap64 (f x)))"
    by (simp add: wrap64_add_right)
  also have "\<dots> = wrap64 (f x + (\<Sum>x\<leftarrow>xs. f x))"
    by (simp add: Cons.IH wrap64_add_right)
  finally show ?case by simp
qed

lemma in_int64_wrap64: "in_int64 (wrap64 x)"
  by (simp add: wrap64_def in_int64_def)

subsection \<open>Sums of counts\<close>

lemma col_sum_counts: "col_sum (map row.count rs) = wrap64 (sum_list (map cars rs))"
proof -
  have "map (\<lambda>v. case v of None \<Rightarrow> 0 | Some c \<Rightarrow> c) (map row.count rs) = map cars rs"
    by (simp add: cars_def)
  then show ?thesis by (simp only: col_sum_def)
qed


lemma total_q_Frame: "total_q \<lparr>lf = Some (Frame rs)\<rparr> = wrap64 (sum_list (map cars rs))"
  by (simp add: total_q_def total_body_def col_sum_counts)

lemma total_q_no_rows:
  "lf s = None \<or> lf s = Some Failing \<Longrightarrow> total_q s = 0"
  by (auto simp: total_q_def total_body_def)

lemma per_day_Frame: "per_day \<lparr>lf = Some (Frame rs)\<rparr> = sort_key date (group_by_date rs)"
  by (simp add: per_day_def per_day_body_def)

lemma per_day_no_rows:
  "lf s = None \<or> lf s = Some Failing \<Longrightarrow> per_day s = []"
  by (auto simp: per_day_def per_day_body_def)

lemma top_k_no_rows:
  "lf s = None \<or> lf s = Some Failing \<Longrightarrow> top_k E k s = []"
  by (auto simp: top_k_def top_k_body_def)

lemma min_window_sum_no_rows:
  "lf s = None \<or> lf s = Some Failing \<Longrightarrow> min_window_sum E s = None"
  by (auto simp: min_window_sum_def min_window_sum_body_def)

subsection \<open>Sorting\<close>

lemma sum_list_insort_key:
  "sum_list (map g (insort_key k x xs)) = (g x :: int) + sum_list (map g xs)"
  by (induction xs) simp_all

lemma sum_list_sort_key: "sum_list (map g (sort_key k xs)) = sum_list (map (g::'a \<Rightarrow> int) xs)"
  by (induction xs) (simp_all add: sort_key_def sum_list_insort_key)

lemma distinct_map_sort_key: "distinct (map f (sort_key f xs)) = distinct (map f xs)"
  by (induction xs) (simp_all add: distinct_insort_key)

text \<open>What an admissible engine's sort gives, whatever it does with equal keys.\<close>

lemma admissible_arg_sort:
  assumes "admissible E"
  shows "distinct (arg_sort E desc keys)"
    and "set (arg_sort E desc keys) = {..<length keys}"
    and "sorted (map (\<lambda>i. okey desc (keys ! i)) (arg_sort E desc keys))"
  using assms by (simp_all add: admissible_def)

lemma admissible_max_head: "admissible E \<Longrightarrow> 2 ^ 32 - 1 \<le> max_head E"
  by (simp add: admissible_def)

lemma set_sort_by: "admissible E \<Longrightarrow> set (sort_by E desc key xs) = set xs"
proof -
  assume "admissible E"
  then have "set (arg_sort E desc (map key xs)) = {..<length xs}"
    by (simp add: admissible_arg_sort)
  then have "set (sort_by E desc key xs) = (\<lambda>i. xs ! i) ` {..<length xs}"
    by (simp add: sort_by_def)
  also have "\<dots> = set xs"
    by (auto simp: set_conv_nth)
  finally show ?thesis .
qed


lemma sorted_sort_by:
  assumes "admissible E"
  shows "sorted (map (\<lambda>x. okey desc (key x)) (sort_by E desc key xs))"
proof -
  let ?p = "arg_sort E desc (map key xs)"
  have "map (\<lambda>x. okey desc (key x)) (sort_by E desc key xs)
      = map (\<lambda>i. okey desc (key (xs ! i))) ?p"
    by (simp add: sort_by_def comp_def)
  also have "\<dots> = map (\<lambda>i. okey desc (map key xs ! i)) ?p"
    using admissible_arg_sort(2)[OF assms, of desc "map key xs"]
    by (intro map_cong) auto
  finally show ?thesis
    using admissible_arg_sort(3)[OF assms, of desc "map key xs"] by simp
qed




lemma admissible_reference: "admissible reference_engine"
proof -
  have "distinct (arg_sort reference_engine desc keys)
        \<and> set (arg_sort reference_engine desc keys) = {..<length keys}
        \<and> sorted (map (\<lambda>i. okey desc (keys ! i)) (arg_sort reference_engine desc keys))"
    for desc keys
    by (auto simp: reference_engine_def)
  then show ?thesis
    by (simp add: admissible_def) (simp add: reference_engine_def)
qed

subsection \<open>Sums by group\<close>

lemma sum_list_delta_absent:
  "k \<notin> set ds \<Longrightarrow> (\<Sum>d\<leftarrow>ds. if k = d then c else (0::int)) = 0"
  by (induction ds) auto

lemma sum_list_delta:
  "distinct ds \<Longrightarrow> k \<in> set ds \<Longrightarrow> (\<Sum>d\<leftarrow>ds. if k = d then c else (0::int)) = c"
  by (induction ds) (auto simp: sum_list_delta_absent)

lemma sum_by_key:
  "distinct ds \<Longrightarrow> key ` set rs \<subseteq> set ds \<Longrightarrow>
   (\<Sum>d\<leftarrow>ds. \<Sum>r\<leftarrow>filter (\<lambda>r. key r = d) rs. g r) = (\<Sum>r\<leftarrow>rs. (g r :: int))"
proof (induction rs)
  case Nil
  then show ?case by simp
next
  case (Cons r rs)
  have "(\<Sum>d\<leftarrow>ds. \<Sum>r'\<leftarrow>filter (\<lambda>r'. key r' = d) (r # rs). g r')
      = (\<Sum>d\<leftarrow>ds. (if key r = d then g r else 0) + (\<Sum>r'\<leftarrow>filter (\<lambda>r'. key r' = d) rs. g r'))"
    by (rule arg_cong[where f = sum_list]) (rule map_cong, simp_all)
  also have "\<dots> = (\<Sum>d\<leftarrow>ds. if key r = d then g r else 0)
                  + (\<Sum>d\<leftarrow>ds. \<Sum>r'\<leftarrow>filter (\<lambda>r'. key r' = d) rs. g r')"
    by (simp add: sum_list_addf)
  also have "\<dots> = g r + (\<Sum>r\<leftarrow>rs. g r)"
    using Cons by (simp add: sum_list_delta)
  finally show ?case by simp
qed

lemma map_date_group_by_date: "map date (group_by_date rs) = remdups (map date_of rs)"
  by (simp add: group_by_date_def comp_def)

text \<open>The totals of the days, each wrapped, add up to the wrapped sum of all counts.\<close>

lemma sum_group_by_date:
  "wrap64 (sum_list (map day_total.total_cars (group_by_date rs)))
     = wrap64 (sum_list (map cars rs))"
proof -
  have "sum_list (map day_total.total_cars (group_by_date rs))
      = (\<Sum>d\<leftarrow>remdups (map date_of rs).
           wrap64 (\<Sum>r\<leftarrow>filter (\<lambda>r. date_of r = d) rs. cars r))"
    by (simp add: group_by_date_def comp_def col_sum_counts)
  then have "wrap64 (sum_list (map day_total.total_cars (group_by_date rs)))
      = wrap64 (\<Sum>d\<leftarrow>remdups (map date_of rs). \<Sum>r\<leftarrow>filter (\<lambda>r. date_of r = d) rs. cars r)"
    by (simp only: wrap64_sum_list)
  also have "(\<Sum>d\<leftarrow>remdups (map date_of rs). \<Sum>r\<leftarrow>filter (\<lambda>r. date_of r = d) rs. cars r)
      = sum_list (map cars rs)"
    by (rule sum_by_key) simp_all
  finally show ?thesis .
qed

subsection \<open>The shifted frame\<close>

lemma length_shift_up: "length (shift_up n col) = length col"
  by (simp add: shift_up_def)
















lemma window_timestamps:
  assumes "w \<in> set (windows_of srt)"
  shows "\<exists>a b c. dt w = Some a \<and> dt1 w = Some b \<and> dt2 w = Some c"
proof -
  from assms obtain v where v: "w = with_sum v" "contiguous v"
    by (auto simp: windows_of_def)
  from v(2) have "\<exists>a b c. dt v = Some a \<and> dt1 v = Some b \<and> dt2 v = Some c"
    by (cases "dt v"; cases "dt1 v"; cases "dt2 v")
       (auto simp: contiguous_def and_null_def eq_null_def sub_null_def split: if_splits)
  with v(1) show ?thesis by (simp add: with_sum_def)
qed

lemma format_window_raises:
  assumes "dt w = Some a" and "dt1 w = Some b" and "dt2 w = Some c"
  shows "(\<exists>e. format_window w = Inl e) \<longleftrightarrow> \<not> datable_row w"
  using assms
  by (simp add: format_window_def to_datetime_def attr_isoformat_def datable_row_def)

subsection \<open>Reading and adding sources\<close>



lemma scan_csv_accepted:
  "p \<noteq> Rejected \<Longrightarrow>
   scan_csv p = Inr (case source_rows p of None \<Rightarrow> Failing | Some rs \<Rightarrow> Frame rs)"
  by (cases p) simp_all

lemma add_paths_until_rejected:
  "add_paths s (ps @ Rejected # qs) = add_paths s ps"
  by (induction ps arbitrary: s) (simp_all split: sum.split)

lemma add_paths_append:
  "Rejected \<notin> set ps \<Longrightarrow> add_paths s (ps @ qs) = add_paths (add_paths s ps) qs"
  by (induction ps arbitrary: s) (auto simp: scan_csv_accepted)

lemma pl_concat_Failing: "pl_concat l Failing = Failing"
  by (cases l) simp_all

lemma add_paths_Failing: "lf s = Some Failing \<Longrightarrow> lf (add_paths s qs) = Some Failing"
proof (induction qs arbitrary: s)
  case Nil
  then show ?case by simp
next
  case (Cons q qs)
  show ?case
  proof (cases "q = Rejected")
    case True
    with Cons.prems show ?thesis by simp
  next
    case False
    define s' where "s' = s\<lparr>lf := Some Failing\<rparr>"
    have "add_paths s (q # qs) = add_paths s' qs"
      using False Cons.prems by (simp add: scan_csv_accepted s'_def)
    moreover have "lf (add_paths s' qs) = Some Failing"
      by (rule Cons.IH) (simp add: s'_def)
    ultimately show ?thesis by simp
  qed
qed

lemma add_paths_readable:
  "list_all readable ps \<Longrightarrow>
   add_paths \<lparr>lf = Some (Frame rs)\<rparr> ps = \<lparr>lf = Some (Frame (rs @ concat (map rows_in ps)))\<rparr>"
proof (induction ps arbitrary: rs)
  case Nil
  then show ?case by simp
next
  case (Cons p ps)
  from Cons.prems obtain rws where rws: "source_rows p = Some rws"
    by (auto simp: readable_def)
  then have "p \<noteq> Rejected" by auto
  then have "add_paths \<lparr>lf = Some (Frame rs)\<rparr> (p # ps)
      = add_paths \<lparr>lf = Some (Frame (rs @ rws))\<rparr> ps"
    using rws by (simp add: scan_csv_accepted)
  also have "\<dots> = \<lparr>lf = Some (Frame ((rs @ rws) @ concat (map rows_in ps)))\<rparr>"
    using Cons.prems by (intro Cons.IH) simp
  finally have "add_paths \<lparr>lf = Some (Frame rs)\<rparr> (p # ps)
      = \<lparr>lf = Some (Frame ((rs @ rws) @ concat (map rows_in ps)))\<rparr>" .
  moreover have "rows_in p = rws" using rws by (simp add: rows_in_def)
  ultimately show ?case by simp
qed


section \<open>The scenario of the repository's tests\<close>

lemma sample_rows: "sample_analyzer = \<lparr>lf = Some (Frame SAMPLE)\<rparr>"
  by code_simp

lemma sample_total: "total_q sample_analyzer = 398"
  by code_simp

lemma sample_per_day:
  "per_day sample_analyzer =
     [\<lparr>date = Some ''2021-12-01'', total_cars = 179\<rparr>,
      \<lparr>date = Some ''2021-12-05'', total_cars = 81\<rparr>,
      \<lparr>date = Some ''2021-12-08'', total_cars = 134\<rparr>,
      \<lparr>date = Some ''2021-12-09'', total_cars = 4\<rparr>]"
  by code_simp

lemma sample_top3:
  "top_k reference_engine 3 sample_analyzer =
     [\<lparr>datetime = Some ''2021-12-01T07:30:00'', count = Some 46\<rparr>,
      \<lparr>datetime = Some ''2021-12-01T08:00:00'', count = Some 42\<rparr>,
      \<lparr>datetime = Some ''2021-12-08T18:00:00'', count = Some 33\<rparr>]"
  by code_simp

lemma sample_min_window_sum:
  "min_window_sum reference_engine sample_analyzer =
     Some \<lparr>datetime_range =
             [''2021-12-01T05:00:00'', ''2021-12-01T05:30:00'', ''2021-12-01T06:00:00''],
           total_cars = Some 31\<rparr>"
  by code_simp

text \<open>
  The tests of the defaults: no source, and the path \<^verbatim>\<open>None\<close>, which the scan accepts and
  which fails when a query collects.
\<close>

lemma defaults_when_no_data:
  "total_q init = 0 \<and> per_day init = [] \<and> top_k reference_engine 3 init = []
   \<and> min_window_sum reference_engine init = None"
  by code_simp

lemma add_paths_handles_bad_path:
  "total_q (add_paths init [Unreadable]) = 0 \<and> per_day (add_paths init [Unreadable]) = []
   \<and> top_k reference_engine 3 (add_paths init [Unreadable]) = []
   \<and> min_window_sum reference_engine (add_paths init [Unreadable]) = None"
  by code_simp

section \<open>total\<close>

text \<open>
  C3, as the specification has it, fails: the sum of the column \<^verbatim>\<open>count\<close> is a 64-bit sum.
  On two records with the counts \<open>2 ^ 63 - 1\<close> and 1 the literal sum is \<open>2 ^ 63\<close>, and
  \<^verbatim>\<open>total()\<close> returns \<open>- 2 ^ 63\<close>.
\<close>

theorem total_wraps_around:
  "total_q \<lparr>lf = Some (Frame two_heavy_days)\<rparr> = - 9223372036854775808
   \<and> (\<Sum>r\<leftarrow>two_heavy_days. cars r) = 9223372036854775808"
  by code_simp

text \<open>
  C3, amended. \<^verbatim>\<open>total()\<close> equals the sum of the \<^verbatim>\<open>count\<close> field over every record of the
  dataset, reduced to the 64-bit range by wrap-around; it equals the literal sum whenever
  the literal sum lies in the 64-bit range. A record without a count adds nothing. For an
  absent and for an empty dataset \<^verbatim>\<open>total()\<close> returns 0.
\<close>

theorem total_is_sum_of_counts:
  "total_q \<lparr>lf = Some (Frame rs)\<rparr> = wrap64 (\<Sum>r\<leftarrow>rs. cars r)
   \<and> (in_int64 (\<Sum>r\<leftarrow>rs. cars r) \<longrightarrow> total_q \<lparr>lf = Some (Frame rs)\<rparr> = (\<Sum>r\<leftarrow>rs. cars r))
   \<and> total_q \<lparr>lf = None\<rparr> = 0
   \<and> total_q \<lparr>lf = Some (Frame [])\<rparr> = 0"
proof -
  have "total_q \<lparr>lf = Some (Frame rs)\<rparr> = wrap64 (\<Sum>r\<leftarrow>rs. cars r)"
    by (rule total_q_Frame)
  moreover have "total_q \<lparr>lf = None\<rparr> = 0"
    by (simp add: total_q_no_rows)
  moreover have "total_q \<lparr>lf = Some (Frame [])\<rparr> = 0"
    by (simp add: total_q_Frame wrap64_0)
  ultimately show ?thesis
    by (simp add: wrap64_id)
qed

theorem total_is_sum_of_counts_witness:
  "in_int64 (\<Sum>r\<leftarrow>SAMPLE. cars r) \<and> (\<Sum>r\<leftarrow>SAMPLE. cars r) = 398
   \<and> total_q \<lparr>lf = Some (Frame SAMPLE)\<rparr> = 398"
proof -
  have fits: "in_int64 (\<Sum>r\<leftarrow>SAMPLE. cars r)"
    by code_simp
  have sum: "(\<Sum>r\<leftarrow>SAMPLE. cars r) = 398"
    by code_simp
  from total_is_sum_of_counts[of SAMPLE] fits have
    "total_q \<lparr>lf = Some (Frame SAMPLE)\<rparr> = (\<Sum>r\<leftarrow>SAMPLE. cars r)"
    by blast
  with fits sum show ?thesis by simp
qed

section \<open>per\_day\<close>

text \<open>
  C4, as the specification has it, fails twice. A record whose timestamp could not be
  converted has no calendar date, and \<^verbatim>\<open>per_day()\<close> returns an entry for it, with the date
  null, before the entries of the dates. And the total of a date is a 64-bit sum: on one
  day with the counts \<open>2 ^ 63 - 1\<close> and 1 the entry has the total \<open>- 2 ^ 63\<close>.
\<close>

theorem per_day_null_date_and_wrapped_total:
  "per_day \<lparr>lf = Some (Frame undated)\<rparr> =
     [\<lparr>date = None, total_cars = 5\<rparr>, \<lparr>date = Some ''2021-12-01'', total_cars = 7\<rparr>]
   \<and> per_day \<lparr>lf = Some (Frame heavy_day)\<rparr> =
     [\<lparr>date = Some ''2021-12-01'', total_cars = - 9223372036854775808\<rparr>]
   \<and> (\<Sum>r\<leftarrow>heavy_day. cars r) = 9223372036854775808"
  by code_simp

text \<open>
  C4, amended. \<^verbatim>\<open>per_day()\<close> returns one entry for every date that occurs in the dataset
  and no other entry, where the records without a timestamp count as one further date, the
  null date: an entry with the date null is returned exactly when some record has no
  timestamp. The dates of the returned sequence are strictly ascending, null first, so no
  date occurs twice. The \<^verbatim>\<open>total_cars\<close> of an entry is the sum of \<^verbatim>\<open>count\<close> over the records
  of its date, reduced to the 64-bit range by wrap-around; it is the literal sum whenever
  that lies in the 64-bit range. For an absent dataset and for an empty one the result is
  the empty sequence.
\<close>

theorem per_day_one_total_per_date:
  "set (map date (per_day \<lparr>lf = Some (Frame rs)\<rparr>)) = date_of ` set rs
   \<and> (None \<in> set (map date (per_day \<lparr>lf = Some (Frame rs)\<rparr>)) \<longleftrightarrow> (\<exists>r\<in>set rs. dt r = None))
   \<and> sorted_wrt (<) (map date (per_day \<lparr>lf = Some (Frame rs)\<rparr>))
   \<and> (\<forall>e\<in>set (per_day \<lparr>lf = Some (Frame rs)\<rparr>).
         day_total.total_cars e
           = wrap64 (\<Sum>r\<leftarrow>filter (\<lambda>r. date_of r = date e) rs. cars r))
   \<and> (\<forall>e\<in>set (per_day \<lparr>lf = Some (Frame rs)\<rparr>).
         in_int64 (\<Sum>r\<leftarrow>filter (\<lambda>r. date_of r = date e) rs. cars r) \<longrightarrow>
         day_total.total_cars e = (\<Sum>r\<leftarrow>filter (\<lambda>r. date_of r = date e) rs. cars r))
   \<and> per_day \<lparr>lf = None\<rparr> = []
   \<and> per_day \<lparr>lf = Some (Frame [])\<rparr> = []"
proof -
  let ?out = "per_day \<lparr>lf = Some (Frame rs)\<rparr>"
  have dates: "set (map date ?out) = date_of ` set rs"
  proof -
    have "set (map date ?out) = set (map date (group_by_date rs))"
      by (simp add: per_day_Frame)
    then show ?thesis by (simp add: map_date_group_by_date)
  qed
  have null: "None \<in> set (map date ?out) \<longleftrightarrow> (\<exists>r\<in>set rs. dt r = None)"
    unfolding dates by (auto simp: date_of_def)
  have "sorted (map date ?out)"
    by (simp add: per_day_Frame)
  moreover have "distinct (map date ?out)"
    by (simp add: per_day_Frame distinct_map_sort_key map_date_group_by_date)
  ultimately have ascending: "sorted_wrt (<) (map date ?out)"
    by (simp add: strict_sorted_iff)
  have sums: "\<forall>e\<in>set ?out.
      day_total.total_cars e = wrap64 (\<Sum>r\<leftarrow>filter (\<lambda>r. date_of r = date e) rs. cars r)"
    by (auto simp: per_day_Frame group_by_date_def col_sum_counts)
  then have literal: "\<forall>e\<in>set ?out.
      in_int64 (\<Sum>r\<leftarrow>filter (\<lambda>r. date_of r = date e) rs. cars r) \<longrightarrow>
      day_total.total_cars e = (\<Sum>r\<leftarrow>filter (\<lambda>r. date_of r = date e) rs. cars r)"
    by (simp add: wrap64_id)
  have "per_day \<lparr>lf = None\<rparr> = []" "per_day \<lparr>lf = Some (Frame [])\<rparr> = []"
    by (simp_all add: per_day_no_rows per_day_Frame group_by_date_def)
  with dates null ascending sums literal show ?thesis by blast
qed

theorem per_day_one_total_per_date_witness:
  "per_day \<lparr>lf = Some (Frame two_days)\<rparr> =
     [\<lparr>date = Some ''2021-12-01'', total_cars = 17\<rparr>,
      \<lparr>date = Some ''2021-12-05'', total_cars = 33\<rparr>]
   \<and> set (map date (per_day \<lparr>lf = Some (Frame two_days)\<rparr>)) = date_of ` set two_days
   \<and> sorted_wrt (<) (map date (per_day \<lparr>lf = Some (Frame two_days)\<rparr>))
   \<and> in_int64 (\<Sum>r\<leftarrow>filter (\<lambda>r. date_of r = Some ''2021-12-05'') two_days. cars r)
   \<and> (\<Sum>r\<leftarrow>filter (\<lambda>r. date_of r = Some ''2021-12-05'') two_days. cars r) = 33"
proof -
  have out: "per_day \<lparr>lf = Some (Frame two_days)\<rparr> =
     [\<lparr>date = Some ''2021-12-01'', total_cars = 17\<rparr>,
      \<lparr>date = Some ''2021-12-05'', total_cars = 33\<rparr>]"
    by code_simp
  have fits: "in_int64 (\<Sum>r\<leftarrow>filter (\<lambda>r. date_of r = Some ''2021-12-05'') two_days. cars r)"
    by code_simp
  from per_day_one_total_per_date[of two_days] have
    dates: "set (map date (per_day \<lparr>lf = Some (Frame two_days)\<rparr>)) = date_of ` set two_days"
    and ascending: "sorted_wrt (<) (map date (per_day \<lparr>lf = Some (Frame two_days)\<rparr>))"
    and literal: "\<forall>e\<in>set (per_day \<lparr>lf = Some (Frame two_days)\<rparr>).
         in_int64 (\<Sum>r\<leftarrow>filter (\<lambda>r. date_of r = date e) two_days. cars r) \<longrightarrow>
         day_total.total_cars e
           = (\<Sum>r\<leftarrow>filter (\<lambda>r. date_of r = date e) two_days. cars r)"
    by blast+
  from literal fits have
    "(\<Sum>r\<leftarrow>filter (\<lambda>r. date_of r = Some ''2021-12-05'') two_days. cars r) = 33"
    unfolding out by simp
  with out dates ascending fits show ?thesis by simp
qed

text \<open>
  C5, as the specification has it, fails: the totals of the days are added by the caller
  without bound, \<^verbatim>\<open>total()\<close> adds within 64 bits. On two days with the counts
  \<open>2 ^ 63 - 1\<close> and 1 the totals of \<^verbatim>\<open>per_day()\<close> add up to \<open>2 ^ 63\<close>, and \<^verbatim>\<open>total()\<close>
  returns \<open>- 2 ^ 63\<close>.
\<close>

theorem per_day_sum_exceeds_total:
  "per_day \<lparr>lf = Some (Frame two_heavy_days)\<rparr> =
     [\<lparr>date = Some ''2021-12-01'', total_cars = 9223372036854775807\<rparr>,
      \<lparr>date = Some ''2021-12-02'', total_cars = 1\<rparr>]
   \<and> sum_list (map day_total.total_cars (per_day \<lparr>lf = Some (Frame two_heavy_days)\<rparr>))
       = 9223372036854775808
   \<and> total_q \<lparr>lf = Some (Frame two_heavy_days)\<rparr> = - 9223372036854775808"
  by code_simp

text \<open>
  C5, amended. On every analyzer, the \<^verbatim>\<open>total_cars\<close> of the entries of \<^verbatim>\<open>per_day()\<close> add up
  to \<^verbatim>\<open>total()\<close> when their sum is reduced to the 64-bit range by wrap-around; the two
  are equal whenever the sum of the entries lies in the 64-bit range.
\<close>

theorem per_day_sums_to_total:
  "wrap64 (sum_list (map day_total.total_cars (per_day s))) = total_q s
   \<and> (in_int64 (sum_list (map day_total.total_cars (per_day s))) \<longrightarrow>
        sum_list (map day_total.total_cars (per_day s)) = total_q s)"
proof -
  have wrapped: "wrap64 (sum_list (map day_total.total_cars (per_day s))) = total_q s"
  proof (cases "lf s")
    case None
    then show ?thesis by (simp add: per_day_no_rows total_q_no_rows wrap64_0)
  next
    case (Some l)
    show ?thesis
    proof (cases l)
      case (Frame rs)
      with Some have s: "s = \<lparr>lf = Some (Frame rs)\<rparr>" by simp
      show ?thesis
        unfolding s by (simp add: per_day_Frame total_q_Frame sum_list_sort_key sum_group_by_date)
    next
      case Failing
      with Some show ?thesis by (simp add: per_day_no_rows total_q_no_rows wrap64_0)
    qed
  qed
  then show ?thesis
    by (auto simp: wrap64_id)
qed

theorem per_day_sums_to_total_witness:
  "in_int64 (sum_list (map day_total.total_cars (per_day sample_analyzer)))
   \<and> sum_list (map day_total.total_cars (per_day sample_analyzer)) = 398
   \<and> total_q sample_analyzer = 398"
proof -
  have fits: "in_int64 (sum_list (map day_total.total_cars (per_day sample_analyzer)))"
    by code_simp
  have "total_q sample_analyzer = 398"
    by (rule sample_total)
  with per_day_sums_to_total[of sample_analyzer] fits show ?thesis by simp
qed

section \<open>top\_k\<close>

lemma permutation_of_two:
  assumes "distinct p" and "set p = {..<(2::nat)}"
  shows "p = [0, 1] \<or> p = [1, 0]"
proof -
  from assms have "length p = 2"
    using distinct_card[of p] by simp
  then obtain a b where p: "p = [a, b]"
    by (cases p; cases "tl p") auto
  have two: "{..<(2::nat)} = {0, 1}" by auto
  from assms p have "a \<noteq> b" "{a, b} = {0, 1}"
    unfolding two by auto
  then have "(a = 0 \<and> b = 1) \<or> (a = 1 \<and> b = 0)"
    by (auto simp: doubleton_eq_iff)
  with p show ?thesis by auto
qed

lemma top_k_3_of_two:
  assumes "admissible E"
  shows "top_k E 3 \<lparr>lf = Some (Frame [a, b])\<rparr>
           = map (\<lambda>i. to_slot ([a, b] ! i)) (arg_sort E True [row.count a, row.count b])"
proof -
  let ?p = "arg_sort E True [row.count a, row.count b]"
  from admissible_max_head[OF assms] have head: "\<not> ((3::int) < 0 \<or> max_head E < 3)" by simp
  have "length ?p = card (set ?p)"
    using admissible_arg_sort(1)[OF assms] by (simp add: distinct_card)
  also have "\<dots> = 2"
    using admissible_arg_sort(2)[OF assms, of True "[row.count a, row.count b]"] by simp
  finally have len: "length ?p = 2" .
  have "top_k E 3 \<lparr>lf = Some (Frame [a, b])\<rparr>
      = take 3 (map to_slot (sort_by E True row.count [a, b]))"
    using head by (simp add: top_k_def top_k_body_def sort_count_desc_def)
  also have "\<dots> = map to_slot (sort_by E True row.count [a, b])"
    using len by (simp add: sort_by_def)
  finally show ?thesis by (simp add: sort_by_def comp_def)
qed

text \<open>
  C2 does not hold of the code. The docstring of \<^verbatim>\<open>top_k\<close> and the specification promise
  ties on the count in ascending order of \<^verbatim>\<open>datetime\<close>; the code sorts by the count alone,
  \<^verbatim>\<open>.sort(by=["count"], descending=[True])\<close>, so that the order of two rows of equal count
  is whatever the engine's sort leaves. Take the two records 05:00 and 06:00 of
  2021-12-01, both with the count 5, once with 05:00 on the first line of the file and
  once with 06:00 on the first line. Both files have the same column of counts, so the
  engine orders the two of them alike by position: whatever an engine does with equal
  keys, \<^verbatim>\<open>top_k(3)\<close> returns 06:00 before 05:00 on one of the two files.
\<close>

theorem top_k_ties_not_by_datetime:
  assumes "admissible E"
  shows "\<not> (sorted_wrt ranked_before (top_k E 3 \<lparr>lf = Some (Frame early_first)\<rparr>)
            \<and> sorted_wrt ranked_before (top_k E 3 \<lparr>lf = Some (Frame late_first)\<rparr>))"
proof -
  let ?p = "arg_sort E True [Some 5, Some 5]"
  have early: "top_k E 3 \<lparr>lf = Some (Frame early_first)\<rparr>
                 = map (\<lambda>i. to_slot (early_first ! i)) ?p"
    using top_k_3_of_two[OF assms, of "slot (at 2021 12 1 5 0) 5" "slot (at 2021 12 1 6 0) 5"]
    by (simp add: early_first_def slot_def)
  have late: "top_k E 3 \<lparr>lf = Some (Frame late_first)\<rparr>
                = map (\<lambda>i. to_slot (late_first ! i)) ?p"
    using top_k_3_of_two[OF assms, of "slot (at 2021 12 1 6 0) 5" "slot (at 2021 12 1 5 0) 5"]
    by (simp add: late_first_def slot_def)
  have unordered_late:
    "\<not> sorted_wrt ranked_before (map (\<lambda>i. to_slot (late_first ! i)) [0, 1])"
    by code_simp
  have unordered_early:
    "\<not> sorted_wrt ranked_before (map (\<lambda>i. to_slot (early_first ! i)) [1, 0])"
    by code_simp
  have "?p = [0, 1] \<or> ?p = [1, 0]"
    using admissible_arg_sort(1,2)[OF assms, of True "[Some 5, Some 5]"]
    by (intro permutation_of_two) simp_all
  then show ?thesis
  proof
    assume "?p = [0, 1]"
    with late unordered_late show ?thesis by simp
  next
    assume "?p = [1, 0]"
    with early unordered_early show ?thesis by simp
  qed
qed

theorem top_k_ties_not_by_datetime_witness:
  "top_k reference_engine 3 \<lparr>lf = Some (Frame early_first)\<rparr> =
     [\<lparr>datetime = Some ''2021-12-01T06:00:00'', count = Some 5\<rparr>,
      \<lparr>datetime = Some ''2021-12-01T05:00:00'', count = Some 5\<rparr>]
   \<and> \<not> (sorted_wrt ranked_before (top_k reference_engine 3 \<lparr>lf = Some (Frame early_first)\<rparr>)
         \<and> sorted_wrt ranked_before (top_k reference_engine 3 \<lparr>lf = Some (Frame late_first)\<rparr>))"
proof -
  have "top_k reference_engine 3 \<lparr>lf = Some (Frame early_first)\<rparr> =
     [\<lparr>datetime = Some ''2021-12-01T06:00:00'', count = Some 5\<rparr>,
      \<lparr>datetime = Some ''2021-12-01T05:00:00'', count = Some 5\<rparr>]"
    by code_simp
  with top_k_ties_not_by_datetime[OF admissible_reference] show ?thesis
    by (intro conjI)
qed

text \<open>What does hold of the order of \<^verbatim>\<open>top_k\<close>: the counts are descending, nulls first.\<close>

lemma top_k_counts_descending:
  assumes "admissible E"
  shows "sorted (map (\<lambda>e. map_option uminus (ranked_slot.count e)) (top_k E k s))"
proof (cases "\<exists>rs. lf s = Some (Frame rs) \<and> \<not> (k < 0 \<or> max_head E < k)")
  case True
  then obtain rs where rs: "lf s = Some (Frame rs)" "\<not> (k < 0 \<or> max_head E < k)" by blast
  have keys: "map (\<lambda>e. map_option uminus (ranked_slot.count e)) (map to_slot xs)
        = map (\<lambda>r. okey True (row.count r)) xs" for xs
    by (simp add: to_slot_def comp_def okey_def)
  have "sorted (map (\<lambda>r. okey True (row.count r)) (sort_count_desc E rs))"
    unfolding sort_count_desc_def by (rule sorted_sort_by[OF assms])
  then have "sorted (take (nat k) (map (\<lambda>e. map_option uminus (ranked_slot.count e))
                      (map to_slot (sort_count_desc E rs))))"
    unfolding keys by (rule sorted_wrt_take)
  with rs show ?thesis
    by (simp add: top_k_def top_k_body_def take_map)
next
  case False
  then have "top_k E k s = []"
    by (cases "lf s"; cases "the (lf s)")
       (auto simp: top_k_def top_k_body_def split: option.splits)
  then show ?thesis by simp
qed

text \<open>
  C10. \<^verbatim>\<open>top_k(0)\<close> returns the empty sequence on every analyzer, whatever its dataset and
  whatever the engine.
\<close>

theorem top_k_zero: "top_k E 0 s = []"
  by (simp add: top_k_def top_k_body_def split: option.split sum.split)

section \<open>min\_window\_sum\<close>








section \<open>The error boundary of the queries\<close>

lemma least_rows_are_windows:
  assumes "admissible E" and "least_rows E rs = w # ws"
  shows "w \<in> set (windows_of (sort_by E False dt rs))"
proof -
  from assms(2) have "w \<in> set (take 1 (sort_by E False sum_count (candidates E rs)))"
    by (simp only: least_rows_def list.set_intros)
  then have "w \<in> set (sort_by E False sum_count (candidates E rs))"
    by (rule in_set_takeD)
  then show ?thesis
    by (simp only: set_sort_by[OF assms(1)] candidates_def)
qed

lemma min_window_sum_body_raises:
  assumes "admissible E"
  shows "(\<exists>e. min_window_sum_body E s = Inl e) \<longleftrightarrow>
           lf s = Some Failing
           \<or> (\<exists>rs w ws. lf s = Some (Frame rs) \<and> least_rows E rs = w # ws \<and> \<not> datable_row w)"
proof (cases "lf s")
  case None
  then show ?thesis by (simp add: min_window_sum_body_def)
next
  case (Some l)
  show ?thesis
  proof (cases l)
    case Failing
    with Some show ?thesis by (simp add: min_window_sum_body_def)
  next
    case (Frame rs)
    show ?thesis
    proof (cases "least_rows E rs")
      case Nil
      with Some Frame show ?thesis by (simp add: min_window_sum_body_def)
    next
      case (Cons w ws)
      from window_timestamps[OF least_rows_are_windows[OF assms Cons]]
      obtain a b c where "dt w = Some a" "dt1 w = Some b" "dt2 w = Some c" by blast
      then have "(\<exists>e. format_window w = Inl e) \<longleftrightarrow> \<not> datable_row w"
        by (rule format_window_raises)
      moreover have "(\<exists>e. min_window_sum_body E s = Inl e) \<longleftrightarrow> (\<exists>e. format_window w = Inl e)"
        using Some Frame Cons by (cases "format_window w") (simp_all add: min_window_sum_body_def)
      ultimately show ?thesis
        using Some Frame Cons by simp
    qed
  qed
qed

text \<open>
  C7. The \<^verbatim>\<open>try\<close> block of a query raises in these cases, and in no other: the frame
  fails when it is collected (for \<^verbatim>\<open>total\<close> and \<^verbatim>\<open>per_day\<close> this is the only case);
  \<^verbatim>\<open>top_k\<close> is called on a loaded analyzer with a negative \<open>k\<close> or a \<open>k\<close> beyond the engine's
  index width; the window that \<^verbatim>\<open>min_window_sum\<close> selects has a timestamp that Python's
  \<^verbatim>\<open>datetime\<close> cannot hold. In each of these cases the query returns its default: 0 for
  \<^verbatim>\<open>total\<close>, the empty sequence for \<^verbatim>\<open>per_day\<close> and \<^verbatim>\<open>top_k\<close>, the empty structure for
  \<^verbatim>\<open>min_window_sum\<close>. In every other case it returns the value of its \<^verbatim>\<open>try\<close> block. On an
  analyzer to which no source has been added all four return their defaults.
\<close>

theorem queries_never_raise:
  assumes "admissible E"
  shows "(lf s = None \<or> lf s = Some Failing \<longrightarrow>
            total_q s = 0 \<and> per_day s = [] \<and> top_k E k s = [] \<and> min_window_sum E s = None)
         \<and> (k < 0 \<or> max_head E < k \<longrightarrow> top_k E k s = [])
         \<and> (\<forall>rs w ws. lf s = Some (Frame rs) \<and> least_rows E rs = w # ws \<and> \<not> datable_row w
               \<longrightarrow> min_window_sum E s = None)
         \<and> ((\<exists>e. total_body s = Inl e) \<longleftrightarrow> lf s = Some Failing)
         \<and> ((\<exists>e. per_day_body s = Inl e) \<longleftrightarrow> lf s = Some Failing)
         \<and> ((\<exists>e. top_k_body E k s = Inl e) \<longleftrightarrow>
               lf s = Some Failing \<or> (lf s \<noteq> None \<and> (k < 0 \<or> max_head E < k)))
         \<and> ((\<exists>e. min_window_sum_body E s = Inl e) \<longleftrightarrow>
               lf s = Some Failing
               \<or> (\<exists>rs w ws. lf s = Some (Frame rs) \<and> least_rows E rs = w # ws
                     \<and> \<not> datable_row w))
         \<and> ((\<forall>e. total_body s \<noteq> Inl e) \<longrightarrow> total_body s = Inr (total_q s))
         \<and> ((\<forall>e. per_day_body s \<noteq> Inl e) \<longrightarrow> per_day_body s = Inr (per_day s))
         \<and> ((\<forall>e. top_k_body E k s \<noteq> Inl e) \<longrightarrow> top_k_body E k s = Inr (top_k E k s))
         \<and> ((\<forall>e. min_window_sum_body E s \<noteq> Inl e) \<longrightarrow>
               min_window_sum_body E s = Inr (min_window_sum E s))"
proof -
  have no_rows: "lf s = None \<or> lf s = Some Failing \<longrightarrow>
      total_q s = 0 \<and> per_day s = [] \<and> top_k E k s = [] \<and> min_window_sum E s = None"
    by (simp add: total_q_no_rows per_day_no_rows top_k_no_rows min_window_sum_no_rows)
  have slice: "k < 0 \<or> max_head E < k \<longrightarrow> top_k E k s = []"
    by (simp add: top_k_def top_k_body_def split: option.split)
  have total_raises: "(\<exists>e. total_body s = Inl e) \<longleftrightarrow> lf s = Some Failing"
  proof (cases "lf s")
    case None
    then show ?thesis by (simp add: total_body_def)
  next
    case (Some l)
    then show ?thesis by (cases l) (simp_all add: total_body_def)
  qed
  have per_day_raises: "(\<exists>e. per_day_body s = Inl e) \<longleftrightarrow> lf s = Some Failing"
  proof (cases "lf s")
    case None
    then show ?thesis by (simp add: per_day_body_def)
  next
    case (Some l)
    then show ?thesis by (cases l) (simp_all add: per_day_body_def)
  qed
  have top_k_raises: "(\<exists>e. top_k_body E k s = Inl e) \<longleftrightarrow>
      lf s = Some Failing \<or> (lf s \<noteq> None \<and> (k < 0 \<or> max_head E < k))"
  proof (cases "lf s")
    case None
    then show ?thesis by (simp add: top_k_body_def)
  next
    case (Some l)
    then show ?thesis by (cases l) (simp_all add: top_k_body_def)
  qed
  note window_raises = min_window_sum_body_raises[OF assms, of s]
  have range: "\<forall>rs w ws. lf s = Some (Frame rs) \<and> least_rows E rs = w # ws \<and> \<not> datable_row w
      \<longrightarrow> min_window_sum E s = None"
  proof (intro allI impI)
    fix rs w ws
    assume "lf s = Some (Frame rs) \<and> least_rows E rs = w # ws \<and> \<not> datable_row w"
    with window_raises obtain e where "min_window_sum_body E s = Inl e" by blast
    then show "min_window_sum E s = None" by (simp add: min_window_sum_def)
  qed
  have "(\<forall>e. total_body s \<noteq> Inl e) \<longrightarrow> total_body s = Inr (total_q s)"
    by (cases "total_body s") (simp_all add: total_q_def)
  moreover have "(\<forall>e. per_day_body s \<noteq> Inl e) \<longrightarrow> per_day_body s = Inr (per_day s)"
    by (cases "per_day_body s") (simp_all add: per_day_def)
  moreover have "(\<forall>e. top_k_body E k s \<noteq> Inl e) \<longrightarrow> top_k_body E k s = Inr (top_k E k s)"
    by (cases "top_k_body E k s") (simp_all add: top_k_def)
  moreover have "(\<forall>e. min_window_sum_body E s \<noteq> Inl e) \<longrightarrow>
      min_window_sum_body E s = Inr (min_window_sum E s)"
    by (cases "min_window_sum_body E s") (simp_all add: min_window_sum_def)
  ultimately show ?thesis
    using no_rows slice range total_raises per_day_raises top_k_raises window_raises
    by (intro conjI)
qed

theorem queries_never_raise_witness:
  "total_q init = 0 \<and> per_day init = [] \<and> top_k reference_engine 3 init = []
   \<and> min_window_sum reference_engine init = None
   \<and> total_q (add_paths init [long_line_file]) = 0
   \<and> per_day (add_paths init [long_line_file]) = []
   \<and> top_k reference_engine 3 (add_paths init [long_line_file]) = []
   \<and> min_window_sum reference_engine (add_paths init [long_line_file]) = None
   \<and> top_k reference_engine (- 1) sample_analyzer = []
   \<and> top_k reference_engine (2 ^ 32) sample_analyzer = []
   \<and> min_window_sum reference_engine \<lparr>lf = Some (Frame year_0)\<rparr> = None
   \<and> total_body sample_analyzer = Inr 398"
proof -
  note adm = admissible_reference
  have fresh: "lf init = None \<or> lf init = Some Failing"
    by (simp add: init_def)
  have refused: "lf (add_paths init [long_line_file]) = None
      \<or> lf (add_paths init [long_line_file]) = Some Failing"
    by code_simp
  have negative: "(- 1 :: int) < 0 \<or> max_head reference_engine < - 1"
    by simp
  have wide: "(2 ^ 32 :: int) < 0 \<or> max_head reference_engine < 2 ^ 32"
    by (simp add: reference_engine_def)
  have early: "lf \<lparr>lf = Some (Frame year_0)\<rparr> = Some (Frame year_0)
      \<and> least_rows reference_engine year_0 =
          with_sum (with_shifted year_0 ! 0) # []
      \<and> \<not> datable_row (with_sum (with_shifted year_0 ! 0))"
    by code_simp
  have loaded: "\<forall>e. total_body sample_analyzer \<noteq> Inl e"
    by (simp add: total_body_def sample_rows)
  from queries_never_raise[OF adm, where s = init and k = 3] fresh
  have a: "total_q init = 0 \<and> per_day init = [] \<and> top_k reference_engine 3 init = []
      \<and> min_window_sum reference_engine init = None"
    by blast
  from queries_never_raise[OF adm, where s = "add_paths init [long_line_file]" and k = 3] refused
  have b: "total_q (add_paths init [long_line_file]) = 0
      \<and> per_day (add_paths init [long_line_file]) = []
      \<and> top_k reference_engine 3 (add_paths init [long_line_file]) = []
      \<and> min_window_sum reference_engine (add_paths init [long_line_file]) = None"
    by blast
  from queries_never_raise[OF adm, where s = sample_analyzer and k = "- 1"] negative
  have c: "top_k reference_engine (- 1) sample_analyzer = []"
    by blast
  from queries_never_raise[OF adm, where s = sample_analyzer and k = "2 ^ 32"] wide
  have d: "top_k reference_engine (2 ^ 32) sample_analyzer = []"
    by blast
  from queries_never_raise[OF adm, where s = "\<lparr>lf = Some (Frame year_0)\<rparr>" and k = 3] early
  have e: "min_window_sum reference_engine \<lparr>lf = Some (Frame year_0)\<rparr> = None"
    by blast
  from queries_never_raise[OF adm, where s = sample_analyzer and k = 3] loaded
  have "total_body sample_analyzer = Inr (total_q sample_analyzer)"
    by blast
  then have f: "total_body sample_analyzer = Inr 398"
    by (simp only: sample_total)
  from a b c d e f show ?thesis by (intro conjI) blast+
qed

section \<open>add\_paths\<close>

lemma add_paths_unreadable:
  assumes "Rejected \<notin> set ps" and "p \<noteq> Rejected" and "\<not> readable p"
  shows "lf (add_paths s (ps @ p # qs)) = Some Failing"
proof -
  define s' where "s' = add_paths s ps"
  define s'' where
    "s'' = s'\<lparr>lf := Some (case lf s' of None \<Rightarrow> Failing | Some l \<Rightarrow> pl_concat l Failing)\<rparr>"
  from assms(3) have "source_rows p = None"
    by (simp add: readable_def)
  with assms(2) have "scan_csv p = Inr Failing"
    by (simp add: scan_csv_accepted)
  then have "add_paths s' (p # qs) = add_paths s'' qs"
    by (simp add: s''_def)
  moreover have "lf s'' = Some Failing"
    by (cases "lf s'") (simp_all add: s''_def pl_concat_Failing)
  then have "lf (add_paths s'' qs) = Some Failing"
    by (rule add_paths_Failing)
  moreover have "add_paths s (ps @ p # qs) = add_paths s' (p # qs)"
    unfolding s'_def by (rule add_paths_append[OF assms(1)])
  ultimately show ?thesis by simp
qed

text \<open>
  C8, as the specification has it, fails in both of its promises. Let a good file hold
  the one line \<^verbatim>\<open>2021-12-01T05:00:00 7\<close>, so that \<^verbatim>\<open>total()\<close> is 7 after adding it alone.

  \<^item> A source that \<^verbatim>\<open>scan_csv\<close> rejects at the call (a number in the place of a path) is
    not the only one skipped: the good file after it in the same call is never scanned,
    and \<^verbatim>\<open>total()\<close> is 0.
  \<^item> A source that \<^verbatim>\<open>scan_csv\<close> accepts and that cannot be read (\<^verbatim>\<open>None\<close>, a path to no
    file) is not skipped: it becomes part of the frame, every later query fails on it and
    returns its default, and the records of the good file added before it are no longer
    reflected: \<^verbatim>\<open>total()\<close> is 0.
\<close>

theorem add_paths_failing_source_loses_others:
  "total_q (add_paths init [good_file]) = 7
   \<and> total_q (add_paths init [Rejected, good_file]) = 0
   \<and> total_q (add_paths init [good_file, Unreadable]) = 0
   \<and> per_day (add_paths init [good_file, Unreadable]) = []"
  by code_simp

text \<open>
  C8, amended. \<^verbatim>\<open>add_paths\<close> never raises. A source that \<^verbatim>\<open>scan_csv\<close> rejects at the call
  ends the call: it and every source after it in the same call are skipped, and the
  sources before it are added as if the call had ended there; when these are readable
  files their records are added to the records merged before, which stay reflected in
  later queries. A source that \<^verbatim>\<open>scan_csv\<close> accepts and that cannot be read when a query
  collects (\<^verbatim>\<open>None\<close>, a path to no file, an I/O error, a file that the reader refuses) is
  not skipped: from then on the frame fails, whatever is added after it, and every query
  returns its default, also for the records merged before.
\<close>

theorem add_paths_failing_source:
  "add_paths s (ps @ Rejected # qs) = add_paths s ps
   \<and> (list_all readable ps \<longrightarrow>
        add_paths \<lparr>lf = Some (Frame rs)\<rparr> (ps @ Rejected # qs)
          = \<lparr>lf = Some (Frame (rs @ concat (map rows_in ps)))\<rparr>)
   \<and> (Rejected \<notin> set ps \<and> p \<noteq> Rejected \<and> \<not> readable p \<longrightarrow>
        lf (add_paths s (ps @ p # qs)) = Some Failing
        \<and> total_q (add_paths s (ps @ p # qs)) = 0
        \<and> per_day (add_paths s (ps @ p # qs)) = []
        \<and> top_k E k (add_paths s (ps @ p # qs)) = []
        \<and> min_window_sum E (add_paths s (ps @ p # qs)) = None)"
proof -
  have ended: "add_paths s' (ps @ Rejected # qs) = add_paths s' ps" for s'
    by (rule add_paths_until_rejected)
  have kept: "list_all readable ps \<longrightarrow>
      add_paths \<lparr>lf = Some (Frame rs)\<rparr> (ps @ Rejected # qs)
        = \<lparr>lf = Some (Frame (rs @ concat (map rows_in ps)))\<rparr>"
    unfolding ended by (simp add: add_paths_readable)
  have lost: "Rejected \<notin> set ps \<and> p \<noteq> Rejected \<and> \<not> readable p \<longrightarrow>
        lf (add_paths s (ps @ p # qs)) = Some Failing
        \<and> total_q (add_paths s (ps @ p # qs)) = 0
        \<and> per_day (add_paths s (ps @ p # qs)) = []
        \<and> top_k E k (add_paths s (ps @ p # qs)) = []
        \<and> min_window_sum E (add_paths s (ps @ p # qs)) = None"
  proof
    assume "Rejected \<notin> set ps \<and> p \<noteq> Rejected \<and> \<not> readable p"
    then have failing: "lf (add_paths s (ps @ p # qs)) = Some Failing"
      by (simp add: add_paths_unreadable)
    then show "lf (add_paths s (ps @ p # qs)) = Some Failing
        \<and> total_q (add_paths s (ps @ p # qs)) = 0
        \<and> per_day (add_paths s (ps @ p # qs)) = []
        \<and> top_k E k (add_paths s (ps @ p # qs)) = []
        \<and> min_window_sum E (add_paths s (ps @ p # qs)) = None"
      by (simp add: total_q_no_rows per_day_no_rows top_k_no_rows min_window_sum_no_rows)
  qed
  from ended[of s] kept lost show ?thesis by (intro conjI)
qed

theorem add_paths_failing_source_witness:
  "add_paths init [good_file, Rejected, sample_file] = add_paths init [good_file]
   \<and> total_q (add_paths init [good_file, Rejected, sample_file]) = 7
   \<and> add_paths \<lparr>lf = Some (Frame SAMPLE)\<rparr> [good_file, Rejected, sample_file]
       = \<lparr>lf = Some (Frame (SAMPLE @ [slot (at 2021 12 1 5 0) 7]))\<rparr>
   \<and> lf (add_paths init [good_file, Unreadable, sample_file]) = Some Failing
   \<and> total_q (add_paths init [good_file, Unreadable, sample_file]) = 0"
proof -
  have good: "list_all readable [good_file]"
    by code_simp
  have rows: "concat (map rows_in [good_file]) = [slot (at 2021 12 1 5 0) 7]"
    by code_simp
  have alone: "total_q (add_paths init [good_file]) = 7"
    by code_simp
  have unreadable: "Rejected \<notin> set [good_file] \<and> Unreadable \<noteq> Rejected \<and> \<not> readable Unreadable"
    by (simp add: good_file_def readable_def)
  note inst = add_paths_failing_source[where s = init and ps = "[good_file]"
      and qs = "[sample_file]" and rs = SAMPLE and p = Unreadable and E = reference_engine
      and k = 3]
  from inst have a: "add_paths init [good_file, Rejected, sample_file] = add_paths init [good_file]"
    by simp
  from inst good have b: "add_paths \<lparr>lf = Some (Frame SAMPLE)\<rparr> [good_file, Rejected, sample_file]
       = \<lparr>lf = Some (Frame (SAMPLE @ [slot (at 2021 12 1 5 0) 7]))\<rparr>"
    unfolding rows by simp
  from inst unreadable have c: "lf (add_paths init [good_file, Unreadable, sample_file]) = Some Failing
      \<and> total_q (add_paths init [good_file, Unreadable, sample_file]) = 0"
    by simp
  from a b c alone show ?thesis by simp
qed




end
